theory Spec2Isabelle
  imports Main "HOL-Library.Word" "HOL-Library.AList"
begin

section \<open>Python values and exceptions\<close>

text \<open>
  The service is a Flask application in front of one MongoDB collection. The values that
  flow through it are the Python values a JSON body parses to, plus the two BSON types
  the handlers convert to text (\<open>ObjectId\<close> and \<open>datetime\<close>). Strings are sequences
  of code points below 256. A \<open>dict\<close> is an association list in insertion order.
\<close>

datatype exc =
    ValueError | TypeError | OverflowError | KeyError | AttributeError
  | InvalidId | DuplicateKeyError | ServerSelectionTimeoutError | PyMongoError

text \<open>
  Floating-point numbers: infinities and NaN are explicit, the finite doubles are a type
  parameter whose arithmetic is supplied by the primitives of \<open>pyprims\<close> below.
\<close>

datatype 'f pyfloat = Finite 'f | PosInf | NegInf | NaN

record datetime =
  dt_year :: nat
  dt_month :: nat
  dt_day :: nat
  dt_hour :: nat
  dt_minute :: nat
  dt_second :: nat
  dt_microsecond :: nat

type_synonym oid = "96 word"

datatype 'f pyval =
    PNone
  | PBool bool
  | PInt int
  | PFloat "'f pyfloat"
  | PStr string
  | PList "'f pyval list"
  | PDict "(string \<times> 'f pyval) list"
  | PDatetime datetime
  | PObjectId oid

type_synonym 'f pydict = "(string \<times> 'f pyval) list"

text \<open>
  The primitives of the interpreter that are not modelled bit by bit: rounding an
  in-range integer to a double, \<open>float(str)\<close> (\<open>None\<close> is \<open>ValueError\<close>), truncation of
  a finite double, its test against zero, and \<open>repr\<close> of floats and containers
  (\<open>None\<close> is the \<open>ValueError\<close> of an integer beyond the digit limit inside a container).
\<close>

record 'f pyprims =
  float_of_int :: "int \<Rightarrow> 'f"
  float_of_str :: "string \<Rightarrow> 'f pyfloat option"
  trunc_float :: "'f \<Rightarrow> int"
  float_nonzero :: "'f \<Rightarrow> bool"
  py_repr :: "'f pyval \<Rightarrow> string option"

subsection \<open>Sequencing of statements that may raise\<close>

definition bind_exc :: "exc + 'a \<Rightarrow> ('a \<Rightarrow> exc + 'b) \<Rightarrow> exc + 'b" where
  "bind_exc m k = (case m of Inl e \<Rightarrow> Inl e | Inr x \<Rightarrow> k x)"

subsection \<open>str.strip, str.join, decimal text\<close>

definition py_isspace :: "char \<Rightarrow> bool" where
  "py_isspace c = ((of_char c :: nat) \<in> set [9, 10, 11, 12, 13, 28, 29, 30, 31, 32, 133, 160])"

definition strip :: "string \<Rightarrow> string" where
  "strip s = rev (dropWhile py_isspace (rev (dropWhile py_isspace s)))"

fun join :: "string \<Rightarrow> string list \<Rightarrow> string" where
  "join sep [] = []"
| "join sep [x] = x"
| "join sep (x # y # ys) = x @ sep @ join sep (y # ys)"

definition digit_char :: "nat \<Rightarrow> char" where
  "digit_char d = char_of (48 + d)"

fun str_nat :: "nat \<Rightarrow> string" where
  "str_nat n = (if n < 10 then [digit_char n] else str_nat (n div 10) @ [digit_char (n mod 10)])"

definition str_int :: "int \<Rightarrow> string" where
  "str_int i = (if i < 0 then CHR ''-'' # str_nat (nat (- i)) else str_nat (nat i))"

definition zero_pad :: "nat \<Rightarrow> nat \<Rightarrow> string" where
  "zero_pad w n = replicate (w - length (str_nat n)) CHR ''0'' @ str_nat n"

subsection \<open>datetime.isoformat and str(datetime)\<close>

definition isoformat_sep :: "char \<Rightarrow> datetime \<Rightarrow> string" where
  "isoformat_sep sep d =
     zero_pad 4 (dt_year d) @ ''-'' @ zero_pad 2 (dt_month d) @ ''-'' @ zero_pad 2 (dt_day d)
     @ [sep]
     @ zero_pad 2 (dt_hour d) @ '':'' @ zero_pad 2 (dt_minute d) @ '':'' @ zero_pad 2 (dt_second d)
     @ (if dt_microsecond d = 0 then [] else ''.'' @ zero_pad 6 (dt_microsecond d))"

definition isoformat :: "datetime \<Rightarrow> string" where
  "isoformat d = isoformat_sep CHR ''T'' d"

subsection \<open>bson.ObjectId\<close>

text \<open>
  A generated identifier is twelve bytes, and its text is the 24 lower-case hexadecimal
  digits of those bytes. \<open>ObjectId(s)\<close> takes a string of length 24 and reads it with
  \<open>bytes.fromhex\<close>, which accepts pairs of hexadecimal digits of either case and skips
  ASCII whitespace between pairs; it raises \<open>InvalidId\<close> on any other string. The bytes
  it keeps are therefore twelve for 24 digits and fewer when the string holds whitespace.
\<close>

type_synonym oid_bytes = "8 word list"

definition hex_digit :: "nat \<Rightarrow> char" where
  "hex_digit d = (if d < 10 then char_of (48 + d) else char_of (87 + d))"

definition hex_val :: "char \<Rightarrow> nat option" where
  "hex_val c =
     (let n = (of_char c :: nat) in
      if 48 \<le> n \<and> n \<le> 57 then Some (n - 48)
      else if 97 \<le> n \<and> n \<le> 102 then Some (n - 87)
      else if 65 \<le> n \<and> n \<le> 70 then Some (n - 55)
      else None)"

definition ascii_space :: "char \<Rightarrow> bool" where
  "ascii_space c = ((of_char c :: nat) \<in> set [9, 10, 11, 12, 13, 32])"

fun fromhex :: "string \<Rightarrow> oid_bytes option" where
  "fromhex [] = Some []"
| "fromhex (c # cs) =
     (if ascii_space c then fromhex cs
      else
        (case hex_val c of
           None \<Rightarrow> None
         | Some hi \<Rightarrow>
             (case cs of
                [] \<Rightarrow> None
              | c' # cs' \<Rightarrow>
                  (case hex_val c' of
                     None \<Rightarrow> None
                   | Some lo \<Rightarrow> map_option ((#) (of_nat (16 * hi + lo))) (fromhex cs')))))"

definition hexlify :: "oid_bytes \<Rightarrow> string" where
  "hexlify bs = concat (map (\<lambda>b. [hex_digit (unat b div 16), hex_digit (unat b mod 16)]) bs)"

fun to_bytes :: "nat \<Rightarrow> nat \<Rightarrow> oid_bytes" where
  "to_bytes 0 n = []"
| "to_bytes (Suc k) n = to_bytes k (n div 256) @ [of_nat (n mod 256)]"

text \<open>The twelve bytes of a generated identifier, most significant first.\<close>

definition binary :: "oid \<Rightarrow> oid_bytes" where
  "binary i = to_bytes 12 (unat i)"

text \<open>The number a byte string denotes, most significant byte first.\<close>

fun bytes_value :: "nat \<Rightarrow> oid_bytes \<Rightarrow> nat" where
  "bytes_value acc [] = acc"
| "bytes_value acc (b # bs) = bytes_value (256 * acc + unat b) bs"

definition oid_str :: "oid \<Rightarrow> string" where
  "oid_str i = hexlify (binary i)"

definition ObjectId :: "string \<Rightarrow> exc + oid_bytes" where
  "ObjectId s =
     (if length s = 24 then
        (case fromhex s of None \<Rightarrow> Inl InvalidId | Some bs \<Rightarrow> Inr bs)
      else Inl InvalidId)"

subsection \<open>The built-ins bool, in, subscription, str, int, float\<close>

fun py_truthy :: "'f pyprims \<Rightarrow> 'f pyval \<Rightarrow> bool" where
  "py_truthy fp PNone = False"
| "py_truthy fp (PBool b) = b"
| "py_truthy fp (PInt i) = (i \<noteq> 0)"
| "py_truthy fp (PFloat (Finite x)) = float_nonzero fp x"
| "py_truthy fp (PFloat _) = True"
| "py_truthy fp (PStr s) = (s \<noteq> [])"
| "py_truthy fp (PList xs) = (xs \<noteq> [])"
| "py_truthy fp (PDict kvs) = (kvs \<noteq> [])"
| "py_truthy fp (PDatetime _) = True"
| "py_truthy fp (PObjectId _) = True"

fun starts_with :: "string \<Rightarrow> string \<Rightarrow> bool" where
  "starts_with [] s = True"
| "starts_with (p # ps) [] = False"
| "starts_with (p # ps) (c # cs) = (p = c \<and> starts_with ps cs)"

fun substring :: "string \<Rightarrow> string \<Rightarrow> bool" where
  "substring p [] = (p = [])"
| "substring p (c # cs) = (starts_with p (c # cs) \<or> substring p cs)"

text \<open>\<open>key in data\<close>: membership for dict, list and str; \<open>TypeError\<close> for the rest.\<close>

fun py_contains :: "string \<Rightarrow> 'f pyval \<Rightarrow> exc + bool" where
  "py_contains k (PDict kvs) = Inr (k \<in> set (map fst kvs))"
| "py_contains k (PList xs) = Inr (PStr k \<in> set xs)"
| "py_contains k (PStr s) = Inr (substring k s)"
| "py_contains k _ = Inl TypeError"

text \<open>\<open>data[key]\<close> with a string key: only a dict can be subscripted by a string.\<close>

fun py_getitem :: "'f pyval \<Rightarrow> string \<Rightarrow> exc + 'f pyval" where
  "py_getitem (PDict kvs) k = (case map_of kvs k of None \<Rightarrow> Inl KeyError | Some v \<Rightarrow> Inr v)"
| "py_getitem _ k = Inl TypeError"

text \<open>
  The interpreter converts no integer of more than 4300 decimal digits to or from text:
  \<open>str\<close> and \<open>int\<close> raise \<open>ValueError\<close> beyond that limit.
\<close>

definition max_str_digits :: nat where
  "max_str_digits = 4300"

fun py_str :: "'f pyprims \<Rightarrow> 'f pyval \<Rightarrow> exc + string" where
  "py_str fp (PStr s) = Inr s"
| "py_str fp PNone = Inr ''None''"
| "py_str fp (PBool b) = Inr (if b then ''True'' else ''False'')"
| "py_str fp (PInt i) = (if 10 ^ max_str_digits \<le> \<bar>i\<bar> then Inl ValueError else Inr (str_int i))"
| "py_str fp (PObjectId i) = Inr (oid_str i)"
| "py_str fp (PDatetime d) = Inr (isoformat_sep CHR '' '' d)"
| "py_str fp v = (case py_repr fp v of None \<Rightarrow> Inl ValueError | Some s \<Rightarrow> Inr s)"

text \<open>
  \<open>int(str)\<close> in base 10: surrounding whitespace, an optional sign, then decimal digits
  with single underscores allowed between digits, and no more digits than the limit.
\<close>

definition digit_val :: "char \<Rightarrow> nat option" where
  "digit_val c = (let n = (of_char c :: nat) in if 48 \<le> n \<and> n \<le> 57 then Some (n - 48) else None)"

fun more_digits :: "nat \<Rightarrow> string \<Rightarrow> nat option" where
  "more_digits acc [] = Some acc"
| "more_digits acc (c # cs) =
     (case digit_val c of
        Some d \<Rightarrow> more_digits (10 * acc + d) cs
      | None \<Rightarrow>
          (if c = CHR ''_'' then
             (case cs of
                [] \<Rightarrow> None
              | c' # cs' \<Rightarrow>
                  (case digit_val c' of
                     None \<Rightarrow> None
                   | Some d \<Rightarrow> more_digits (10 * acc + d) cs'))
           else None))"

definition parse_digits :: "string \<Rightarrow> nat option" where
  "parse_digits s =
     (if length (filter (\<lambda>c. digit_val c \<noteq> None) s) > max_str_digits then None
      else
        (case s of
           [] \<Rightarrow> None
         | c # cs \<Rightarrow> (case digit_val c of None \<Rightarrow> None | Some d \<Rightarrow> more_digits d cs)))"

definition int_of_str :: "string \<Rightarrow> int option" where
  "int_of_str s =
     (case strip s of
        [] \<Rightarrow> None
      | c # cs \<Rightarrow>
          (if c = CHR ''-'' then map_option (\<lambda>n. - int n) (parse_digits cs)
           else if c = CHR ''+'' then map_option int (parse_digits cs)
           else map_option int (parse_digits (c # cs))))"

fun py_int :: "'f pyprims \<Rightarrow> 'f pyval \<Rightarrow> exc + int" where
  "py_int fp (PInt i) = Inr i"
| "py_int fp (PBool b) = Inr (if b then 1 else 0)"
| "py_int fp (PFloat (Finite x)) = Inr (trunc_float fp x)"
| "py_int fp (PFloat NaN) = Inl ValueError"
| "py_int fp (PFloat _) = Inl OverflowError"
| "py_int fp (PStr s) = (case int_of_str s of None \<Rightarrow> Inl ValueError | Some i \<Rightarrow> Inr i)"
| "py_int fp _ = Inl TypeError"

text \<open>
  \<open>float(int)\<close> raises \<open>OverflowError\<close> when the integer rounds beyond the largest
  double, which is \<open>2^1024 - 2^971\<close>; the rounding boundary is half an ulp above it.
\<close>

definition double_overflow :: "int \<Rightarrow> bool" where
  "double_overflow i = (\<bar>i\<bar> \<ge> 2 ^ 1024 - 2 ^ 970)"

fun py_float :: "'f pyprims \<Rightarrow> 'f pyval \<Rightarrow> exc + 'f pyfloat" where
  "py_float fp (PFloat x) = Inr x"
| "py_float fp (PInt i) =
     (if double_overflow i then Inl OverflowError else Inr (Finite (float_of_int fp i)))"
| "py_float fp (PBool b) = Inr (Finite (float_of_int fp (if b then 1 else 0)))"
| "py_float fp (PStr s) = (case float_of_str fp s of None \<Rightarrow> Inl ValueError | Some x \<Rightarrow> Inr x)"
| "py_float fp _ = Inl TypeError"

text \<open>\<open>value.isoformat()\<close>: only a datetime has the method.\<close>

fun py_isoformat :: "'f pyval \<Rightarrow> exc + string" where
  "py_isoformat (PDatetime d) = Inr (isoformat d)"
| "py_isoformat _ = Inl AttributeError"

section \<open>The document collection\<close>

text \<open>
  What the driver does to a value on its way to the server: an integer must fit in 64
  bits, or encoding raises \<open>OverflowError\<close>; a datetime keeps milliseconds only; every
  other value of the model is stored as it is.
\<close>

definition bson_datetime :: "datetime \<Rightarrow> datetime" where
  "bson_datetime d = d\<lparr>dt_microsecond := dt_microsecond d div 1000 * 1000\<rparr>"

fun bson_encodable :: "'f pyval \<Rightarrow> bool" where
  "bson_encodable (PInt i) = (- (2 ^ 63) \<le> i \<and> i < 2 ^ 63)"
| "bson_encodable (PList xs) = list_all bson_encodable xs"
| "bson_encodable (PDict kvs) = list_all (\<lambda>kv. bson_encodable (snd kv)) kvs"
| "bson_encodable _ = True"

fun bson_stored :: "'f pyval \<Rightarrow> 'f pyval" where
  "bson_stored (PDatetime d) = PDatetime (bson_datetime d)"
| "bson_stored (PList xs) = PList (map bson_stored xs)"
| "bson_stored (PDict kvs) = PDict (map (\<lambda>kv. (fst kv, bson_stored (snd kv))) kvs)"
| "bson_stored v = v"

text \<open>
  The collection is the external collaborator, modelled by its contract: documents are
  kept in natural order under their generated identifier, which is unique; a stored
  document is read back with its identifier under the key \<open>_id\<close> in front of its other
  fields; a query by \<open>_id\<close> matches the document whose identifier has the given bytes;
  every operation raises when the server cannot be reached. \<open>insert_one\<close> is given the
  identifier the driver generates for the new document. A server may refuse a write for
  reasons of its own (the size of the document, validation rules): \<open>accepts\<close> tells which
  documents it takes.
\<close>

record 'f collection =
  documents :: "(oid \<times> 'f pydict) list"
  reachable :: bool
  accepts :: "'f pydict \<Rightarrow> bool"

definition ids :: "'f collection \<Rightarrow> oid list" where
  "ids c = map fst (documents c)"

definition with_id :: "oid \<Rightarrow> 'f pydict \<Rightarrow> 'f pydict" where
  "with_id i d = (''_id'', PObjectId i) # d"

definition insert_one :: "'f collection \<Rightarrow> oid \<Rightarrow> 'f pydict \<Rightarrow> exc + (oid \<times> 'f collection)" where
  "insert_one c gen doc =
     (if \<not> reachable c then Inl ServerSelectionTimeoutError
      else if \<not> bson_encodable (PDict doc) then Inl OverflowError
      else if gen \<in> set (ids c) then Inl DuplicateKeyError
      else if \<not> accepts c doc then Inl PyMongoError
      else Inr (gen, c\<lparr>documents := documents c @
                  [(gen, map (\<lambda>kv. (fst kv, bson_stored (snd kv))) doc)]\<rparr>))"

definition find :: "'f collection \<Rightarrow> exc + 'f pydict list" where
  "find c =
     (if \<not> reachable c then Inl ServerSelectionTimeoutError
      else Inr (map (\<lambda>(i, d). with_id i d) (documents c)))"

definition find_one :: "'f collection \<Rightarrow> oid_bytes \<Rightarrow> exc + 'f pydict option" where
  "find_one c k =
     (if \<not> reachable c then Inl ServerSelectionTimeoutError
      else Inr (map_option (\<lambda>(i, d). with_id i d)
                  (List.find (\<lambda>(i, d). binary i = k) (documents c))))"

fun delete_first :: "oid_bytes \<Rightarrow> (oid \<times> 'a) list \<Rightarrow> (oid \<times> 'a) list" where
  "delete_first k [] = []"
| "delete_first k ((j, d) # rest) =
     (if binary j = k then rest else (j, d) # delete_first k rest)"

text \<open>\<open>delete_one\<close> returns the number of documents it removed and the new collection.\<close>

definition delete_one :: "'f collection \<Rightarrow> oid_bytes \<Rightarrow> exc + (nat \<times> 'f collection)" where
  "delete_one c k =
     (if \<not> reachable c then Inl ServerSelectionTimeoutError
      else if k \<in> set (map binary (ids c))
      then Inr (1, c\<lparr>documents := delete_first k (documents c)\<rparr>)
      else Inr (0, c))"

section \<open>The HTTP service\<close>

type_synonym 'f response = "'f pyval \<times> nat"

text \<open>
  A view returns a response, or lets an exception escape (\<open>Inl\<close>), together with the
  collection as it leaves it.
\<close>

type_synonym 'f outcome = "(exc + 'f response) \<times> 'f collection"

text \<open>
  What the views read of a request: the \<open>x-api-key\<close> header (\<open>None\<close> when absent) and the
  value \<open>request.get_json()\<close> returns.
\<close>

record 'f request =
  x_api_key :: "string option"
  get_json :: "'f pyval"

text \<open>
  \<open>jsonify\<close>: the framework's encoder handles every value of the model except an
  \<open>ObjectId\<close>, for which it raises \<open>TypeError\<close>.
\<close>

fun has_oid :: "'f pyval \<Rightarrow> bool" where
  "has_oid (PObjectId _) = True"
| "has_oid (PList xs) = list_ex has_oid xs"
| "has_oid (PDict kvs) = list_ex (\<lambda>kv. has_oid (snd kv)) kvs"
| "has_oid _ = False"

definition jsonify :: "'f pyval \<Rightarrow> exc + 'f pyval" where
  "jsonify v = (if has_oid v then Inl TypeError else Inr v)"

definition error_body :: "string \<Rightarrow> 'f pyval" where
  "error_body msg = PDict [(''status'', PStr ''error''), (''message'', PStr msg)]"

subsection \<open>require_api_key\<close>

definition require_api_key ::
  "string option \<Rightarrow> ('f request \<Rightarrow> 'f collection \<Rightarrow> 'f outcome) \<Rightarrow> 'f request \<Rightarrow> 'f collection \<Rightarrow> 'f outcome" where
  "require_api_key API_KEY f req c =
     (let key = x_api_key req in
      if (key = None \<or> key = Some []) \<or> key \<noteq> API_KEY
      then (Inr (error_body ''Unauthorized'', 401), c)
      else f req c)"

subsection \<open>add_observation\<close>

definition required_fields :: "string list" where
  "required_fields = [''species'', ''gender'', ''quantity'', ''latitude'', ''longitude'', ''userId'']"

text \<open>The comprehension \<open>[field for field in fields if field not in data]\<close>.\<close>

fun missing_fields :: "'f pyval \<Rightarrow> string list \<Rightarrow> exc + string list" where
  "missing_fields data [] = Inr []"
| "missing_fields data (field # others) =
     bind_exc (py_contains field data) (\<lambda>present.
     bind_exc (missing_fields data others) (\<lambda>rest.
     Inr (if present then rest else field # rest)))"

type_synonym 'f fields = "string \<times> string \<times> int \<times> 'f pyfloat \<times> 'f pyfloat \<times> string"

text \<open>
  The body of the \<open>try\<close> block: the six coercions in source order, then the two checks.
  It raises, returns a response early, or falls through with the coerced values.
\<close>

definition extract_and_validate :: "'f pyprims \<Rightarrow> 'f pyval \<Rightarrow> exc + ('f response + 'f fields)" where
  "extract_and_validate fp data =
     bind_exc (py_getitem data ''species'') (\<lambda>v1.
     bind_exc (py_str fp v1) (\<lambda>t1. let species = strip t1 in
     bind_exc (py_getitem data ''gender'') (\<lambda>v2.
     bind_exc (py_str fp v2) (\<lambda>t2. let gender = strip t2 in
     bind_exc (py_getitem data ''quantity'') (\<lambda>v3.
     bind_exc (py_int fp v3) (\<lambda>quantity.
     bind_exc (py_getitem data ''latitude'') (\<lambda>v4.
     bind_exc (py_float fp v4) (\<lambda>latitude.
     bind_exc (py_getitem data ''longitude'') (\<lambda>v5.
     bind_exc (py_float fp v5) (\<lambda>longitude.
     bind_exc (py_getitem data ''userId'') (\<lambda>v6.
     bind_exc (py_str fp v6) (\<lambda>t6. let user_id = strip t6 in
     if gender \<notin> set [''Male'', ''Female'', ''Unknown'']
     then Inr (Inl (error_body ''Invalid gender value'', 400))
     else if quantity < 1
     then Inr (Inl (error_body ''Quantity must be at least 1'', 400))
     else Inr (Inr (species, gender, quantity, latitude, longitude, user_id))))))))))))))"

definition observation_of :: "'f fields \<Rightarrow> datetime \<Rightarrow> 'f pydict" where
  "observation_of fs now =
     (case fs of (species, gender, quantity, latitude, longitude, user_id) \<Rightarrow>
        [(''species'', PStr species),
         (''gender'', PStr gender),
         (''quantity'', PInt quantity),
         (''latitude'', PFloat latitude),
         (''longitude'', PFloat longitude),
         (''userId'', PStr user_id),
         (''timestamp'', PDatetime now)])"

text \<open>
  \<open>now\<close> is the reading of \<open>datetime.utcnow()\<close> and \<open>gen\<close> the identifier generated for the
  insert. Only \<open>ValueError\<close> and \<open>TypeError\<close> are caught around the coercions.
\<close>

definition add_observation ::
  "'f pyprims \<Rightarrow> datetime \<Rightarrow> oid \<Rightarrow> 'f request \<Rightarrow> 'f collection \<Rightarrow> 'f outcome" where
  "add_observation fp now gen req c =
     (let data = get_json req in
      if \<not> py_truthy fp data then (Inr (error_body ''No data provided'', 400), c)
      else
        (case missing_fields data required_fields of
           Inl e \<Rightarrow> (Inl e, c)
         | Inr missing \<Rightarrow>
             if missing \<noteq> []
             then (Inr (error_body (''Missing fields: '' @ join '', '' missing), 400), c)
             else
               (case extract_and_validate fp data of
                  Inl e \<Rightarrow>
                    if e = ValueError \<or> e = TypeError
                    then (Inr (error_body ''Invalid data types provided'', 400), c)
                    else (Inl e, c)
                | Inr (Inl early) \<Rightarrow> (Inr early, c)
                | Inr (Inr fs) \<Rightarrow>
                    (case insert_one c gen (observation_of fs now) of
                       Inl e \<Rightarrow> (Inr (error_body ''Failed to add observation'', 500), c)
                     | Inr (inserted_id, c') \<Rightarrow>
                         (Inr (PDict [(''status'', PStr ''success''),
                                      (''message'', PStr ''Observation added successfully''),
                                      (''id'', PStr (oid_str inserted_id))], 201), c')))))"

subsection \<open>get_observations\<close>

text \<open>The loop over the fetched documents; an exception in any iteration ends it.\<close>

fun convert_each :: "'f pyprims \<Rightarrow> 'f pydict list \<Rightarrow> exc + 'f pydict list" where
  "convert_each fp [] = Inr []"
| "convert_each fp (obs # rest) =
     bind_exc (py_getitem (PDict obs) ''_id'') (\<lambda>i.
     bind_exc (py_str fp i) (\<lambda>text.
     let obs1 = AList.update ''_id'' (PStr text) obs in
     bind_exc (py_getitem (PDict obs1) ''timestamp'') (\<lambda>t.
     bind_exc (py_isoformat t) (\<lambda>s.
     let obs2 = AList.update ''timestamp'' (PStr (s @ ''Z'')) obs1 in
     bind_exc (convert_each fp rest) (\<lambda>rest'.
     Inr (obs2 # rest'))))))"

definition get_observations :: "'f pyprims \<Rightarrow> 'f request \<Rightarrow> 'f collection \<Rightarrow> 'f outcome" where
  "get_observations fp req c =
     (case bind_exc (find c) (\<lambda>observations.
           bind_exc (convert_each fp observations) (\<lambda>converted.
           bind_exc (jsonify (PDict [(''status'', PStr ''success''),
                                     (''observations'', PList (map PDict converted))])) (\<lambda>body.
           Inr (body, 200)))) of
        Inl e \<Rightarrow> (Inr (error_body ''Failed to fetch observations'', 500), c)
      | Inr r \<Rightarrow> (Inr r, c))"

subsection \<open>get_observation\<close>

definition get_observation ::
  "'f pyprims \<Rightarrow> string \<Rightarrow> 'f request \<Rightarrow> 'f collection \<Rightarrow> 'f outcome" where
  "get_observation fp ident req c =
     (case bind_exc (ObjectId ident) (\<lambda>i.
           bind_exc (find_one c i) (\<lambda>found.
           case found of
             None \<Rightarrow> Inr (error_body ''Observation not found'', 404)
           | Some observation \<Rightarrow>
               bind_exc (py_getitem (PDict observation) ''_id'') (\<lambda>v.
               bind_exc (py_str fp v) (\<lambda>text.
               let observation1 = AList.update ''_id'' (PStr text) observation in
               bind_exc (py_getitem (PDict observation1) ''timestamp'') (\<lambda>t.
               bind_exc (py_isoformat t) (\<lambda>s.
               let observation2 = AList.update ''timestamp'' (PStr (s @ ''Z'')) observation1 in
               bind_exc (jsonify (PDict [(''status'', PStr ''success''),
                                         (''observation'', PDict observation2)])) (\<lambda>body.
               Inr (body, 200)))))))) of
        Inl e \<Rightarrow> (Inr (error_body ''Failed to fetch observation'', 500), c)
      | Inr r \<Rightarrow> (Inr r, c))"

subsection \<open>delete_observation\<close>

definition delete_observation :: "string \<Rightarrow> 'f request \<Rightarrow> 'f collection \<Rightarrow> 'f outcome" where
  "delete_observation ident req c =
     (case bind_exc (ObjectId ident) (\<lambda>i. delete_one c i) of
        Inl e \<Rightarrow> (Inr (error_body ''Failed to delete observation'', 500), c)
      | Inr (deleted_count, c') \<Rightarrow>
          if deleted_count = 0
          then (Inr (error_body ''Observation not found'', 404), c')
          else (Inr (PDict [(''status'', PStr ''success''),
                            (''message'', PStr ''Observation deleted successfully'')], 200), c'))"

subsection \<open>home and the routing table\<close>

definition home :: "'f request \<Rightarrow> 'f collection \<Rightarrow> 'f outcome" where
  "home req c =
     (Inr (PDict [(''message'', PStr ''Welcome to the WildVision Observations Backend!''),
                  (''endpoints'', PDict
                     [(''Add Observation'', PStr ''/api/add_observation (POST)''),
                      (''Get All Observations'', PStr ''/api/get_observations (GET)''),
                      (''Get Single Observation'', PStr ''/api/get_observation/<id> (GET)''),
                      (''Delete Observation'', PStr ''/api/delete_observation/<id> (DELETE)'')])],
          200), c)"

datatype route =
    PostAddObservation
  | GetObservations
  | GetObservation string
  | DeleteObservation string
  | GetHome

text \<open>
  The application: each route with the decorators the source puts on its view.
  \<open>API_KEY\<close> is the configured secret, \<open>None\<close> when the environment does not define it.
\<close>

definition app ::
  "string option \<Rightarrow> 'f pyprims \<Rightarrow> datetime \<Rightarrow> oid \<Rightarrow> route \<Rightarrow> 'f request \<Rightarrow> 'f collection \<Rightarrow> 'f outcome" where
  "app API_KEY fp now gen r req c =
     (case r of
        PostAddObservation \<Rightarrow> require_api_key API_KEY (add_observation fp now gen) req c
      | GetObservations \<Rightarrow> require_api_key API_KEY (get_observations fp) req c
      | GetObservation ident \<Rightarrow> require_api_key API_KEY (get_observation fp ident) req c
      | DeleteObservation ident \<Rightarrow> require_api_key API_KEY (delete_observation ident) req c
      | GetHome \<Rightarrow> home req c)"

section \<open>Well-formed collections and the rendering of a record\<close>

text \<open>
  A document as the service writes it: its keys are distinct, its \<open>timestamp\<close> is a
  datetime and no \<open>ObjectId\<close> occurs among its values. A collection is well formed when
  its identifiers are distinct and every document is.
\<close>

definition wf_document :: "'f pydict \<Rightarrow> bool" where
  "wf_document d =
     (distinct (map fst d) \<and>
      (case map_of d ''timestamp'' of Some (PDatetime t) \<Rightarrow> True | _ \<Rightarrow> False) \<and>
      \<not> has_oid (PDict d))"

definition wf_collection :: "'f collection \<Rightarrow> bool" where
  "wf_collection c = (distinct (ids c) \<and> list_all (\<lambda>(i, d). wf_document d) (documents c))"

text \<open>
  The text of an identifier is well formed when it is 24 hexadecimal digits.
\<close>

definition well_formed_id :: "string \<Rightarrow> bool" where
  "well_formed_id s = (length s = 24 \<and> list_all (\<lambda>ch. hex_val ch \<noteq> None) s)"

text \<open>
  The collections the service can be in front of: it starts empty, every request is
  handled by \<open>app\<close>, and the connection to the server and what it accepts may change.
\<close>

inductive served :: "string option \<Rightarrow> 'f pyprims \<Rightarrow> 'f collection \<Rightarrow> bool"
  for API_KEY :: "string option" and fp :: "'f pyprims" where
  start: "served API_KEY fp \<lparr>documents = [], reachable = up, accepts = a\<rparr>"
| request: "served API_KEY fp c \<Longrightarrow> served API_KEY fp (snd (app API_KEY fp now gen r req c))"
| network: "served API_KEY fp c \<Longrightarrow> served API_KEY fp (c\<lparr>reachable := up, accepts := a\<rparr>)"

text \<open>
  The rendering of a stored record in the words of the specification: the identifier as
  its canonical text under \<open>_id\<close>, the timestamp as ISO-8601 text followed by \<open>Z\<close>, every
  other field as stored.
\<close>

definition rendering :: "oid \<Rightarrow> 'f pydict \<Rightarrow> 'f pydict" where
  "rendering i d =
     (''_id'', PStr (oid_str i)) #
     map (\<lambda>(k, v). (k, if k = ''timestamp''
                        then (case v of PDatetime t \<Rightarrow> PStr (isoformat t @ ''Z'') | _ \<Rightarrow> v)
                        else v)) d"

section \<open>Example inputs\<close>

text \<open>
  An instance of the float primitives on the doubles with an integral value, which the
  integers represent exactly; it is what the examples below run on. \<open>repr\<close> of a
  container is abbreviated.
\<close>

definition integral_prims :: "int pyprims" where
  "integral_prims =
     \<lparr>float_of_int = (\<lambda>i. i),
      float_of_str = (\<lambda>s. map_option Finite (int_of_str s)),
      trunc_float = (\<lambda>x. x),
      float_nonzero = (\<lambda>x. x \<noteq> 0),
      py_repr = (\<lambda>v. case v of PFloat (Finite x) \<Rightarrow> Some (str_int x @ ''.0'') | _ \<Rightarrow> Some ''...'')\<rparr>"

definition empty_collection :: "'f collection" where
  "empty_collection = \<lparr>documents = [], reachable = True, accepts = (\<lambda>d. True)\<rparr>"

definition noon :: datetime where
  "noon = \<lparr>dt_year = 2024, dt_month = 5, dt_day = 17, dt_hour = 12, dt_minute = 0,
            dt_second = 0, dt_microsecond = 250123\<rparr>"


definition deer_document :: "int pydict" where
  "deer_document =
     [(''species'', PStr ''Deer''), (''gender'', PStr ''Male''), (''quantity'', PInt 3),
      (''latitude'', PFloat (Finite 45)), (''longitude'', PFloat (Finite (- 70))),
      (''userId'', PStr ''u1''), (''timestamp'', PDatetime (bson_datetime noon))]"

definition one_deer :: "int collection" where
  "one_deer = \<lparr>documents = [(1, deer_document)], reachable = True, accepts = (\<lambda>d. True)\<rparr>"

definition anonymous :: "int request" where
  "anonymous = \<lparr>x_api_key = None, get_json = PNone\<rparr>"


definition spaced_id :: string where
  "spaced_id = ''00 00 00 00 00 00 00 00 ''"

section \<open>Properties\<close>

lemma bind_exc_simps [simp]:
  "bind_exc (Inl e) k = Inl e"
  "bind_exc (Inr x) k = k x"
  by (simp_all add: bind_exc_def)

subsection \<open>Authorisation\<close>

text \<open>
  C9. When the configured key is unset (\<open>None\<close>) or the empty string, every request to a
  protected route is answered 401 Unauthorized whatever \<open>x-api-key\<close> value it carries,
  an empty value against an empty secret included, and the collection is left as it was.
\<close>

theorem unset_key_rejects_all:
  "API_KEY = None \<or> API_KEY = Some [] \<Longrightarrow> r \<noteq> GetHome \<Longrightarrow>
   app API_KEY fp now gen r req c = (Inr (error_body ''Unauthorized'', 401), c)"
  by (cases r; cases "x_api_key req") (auto simp: app_def require_api_key_def)

theorem unset_key_rejects_all_witness:
  "((None :: string option) = None \<or> (None :: string option) = Some []) \<and>
   GetObservations \<noteq> GetHome \<and>
   app None integral_prims noon 1 GetObservations
       \<lparr>x_api_key = Some ''letmein'', get_json = PNone\<rparr> empty_collection
     = (Inr (error_body ''Unauthorized'', 401), empty_collection) \<and>
   app (Some []) integral_prims noon 1 (DeleteObservation ''0000000000000000000000ff'')
       \<lparr>x_api_key = Some [], get_json = PNone\<rparr> empty_collection
     = (Inr (error_body ''Unauthorized'', 401), empty_collection)"
  using unset_key_rejects_all [of None GetObservations integral_prims noon 1
          "\<lparr>x_api_key = Some ''letmein'', get_json = PNone\<rparr>" empty_collection]
        unset_key_rejects_all [of "Some []" "DeleteObservation ''0000000000000000000000ff''"
          integral_prims noon 1 "\<lparr>x_api_key = Some [], get_json = PNone\<rparr>" empty_collection]
  by simp

text \<open>
  C2. A request whose \<open>x-api-key\<close> header is absent or differs from the configured
  secret is answered 401 with the body \<open>{status: error, message: Unauthorized}\<close> on the
  four \<open>/api\<close> routes, whatever its payload. The view of \<open>GET /\<close> carries no decorator:
  it answers with the welcome payload. The claim as stated, which includes \<open>GET /\<close>,
  fails at a request without the header.
\<close>

theorem protected_routes_need_key:
  "x_api_key req = None \<or> x_api_key req \<noteq> API_KEY \<Longrightarrow>
   app API_KEY fp now gen r req c =
     (if r = GetHome then home req c else (Inr (error_body ''Unauthorized'', 401), c))"
  by (cases r) (auto simp: app_def require_api_key_def)

theorem protected_routes_need_key_witness:
  "(x_api_key \<lparr>x_api_key = Some ''guess'', get_json = PNone\<rparr> = None \<or>
    x_api_key \<lparr>x_api_key = Some ''guess'', get_json = PNone\<rparr> \<noteq> Some ''s3cret'') \<and>
   app (Some ''s3cret'') integral_prims noon 1 PostAddObservation
       \<lparr>x_api_key = Some ''guess'', get_json = PNone\<rparr> empty_collection
     = (Inr (error_body ''Unauthorized'', 401), empty_collection)"
  using protected_routes_need_key [of "\<lparr>x_api_key = Some ''guess'', get_json = PNone\<rparr>"
          "Some ''s3cret''" integral_prims noon 1 PostAddObservation empty_collection]
  by simp

theorem home_is_public:
  "app (Some ''s3cret'') integral_prims noon 1 GetHome
       \<lparr>x_api_key = None, get_json = PNone\<rparr> empty_collection
     \<noteq> (Inr (error_body ''Unauthorized'', 401), empty_collection)"
  by (simp add: app_def home_def error_body_def)

subsection \<open>Identifiers and their text form\<close>

lemma hex_val_hex_digit: "d < 16 \<Longrightarrow> hex_val (hex_digit d) = Some d"
  by (auto simp: hex_val_def hex_digit_def Let_def)

lemma hex_digit_not_space: "d < 16 \<Longrightarrow> \<not> ascii_space (hex_digit d)"
  by (auto simp: ascii_space_def hex_digit_def)

lemma hex_not_space: "hex_val c = Some d \<Longrightarrow> \<not> ascii_space c"
  by (auto simp: hex_val_def ascii_space_def Let_def split: if_splits)

lemma byte_of_nibbles: "of_nat (16 * (unat b div 16) + unat b mod 16) = (b :: 8 word)"
  by simp

lemma nibble_bound: "unat (b :: 8 word) div 16 < 16"
proof -
  have "unat b < 2 ^ 8"
    using unsigned_less [of b] by simp
  then show ?thesis by simp
qed

text \<open>
  The text of a generated identifier has 24 characters, and \<open>ObjectId\<close> reads it back as
  the twelve bytes of that identifier.
\<close>

lemma fromhex_hexlify: "fromhex (hexlify bs) = Some bs"
proof (induction bs)
  case Nil
  show ?case by (simp add: hexlify_def)
next
  case (Cons b bs)
  have "hexlify (b # bs) =
      hex_digit (unat b div 16) # hex_digit (unat b mod 16) # hexlify bs"
    by (simp add: hexlify_def)
  then show ?case
    using Cons nibble_bound [of b]
    by (simp add: hex_val_hex_digit hex_digit_not_space byte_of_nibbles)
qed

lemma length_hexlify: "length (hexlify bs) = 2 * length bs"
  by (induction bs) (simp_all add: hexlify_def)

lemma length_to_bytes [simp]: "length (to_bytes k n) = k"
  by (induction k arbitrary: n) auto

lemma length_binary [simp]: "length (binary i) = 12"
  by (simp add: binary_def)

lemma length_oid_str: "length (oid_str i) = 24"
  by (simp add: oid_str_def length_hexlify)

lemma ObjectId_oid_str: "ObjectId (oid_str i) = Inr (binary i)"
  by (simp add: ObjectId_def length_oid_str) (simp add: oid_str_def fromhex_hexlify)

text \<open>Different identifiers have different bytes.\<close>

lemma bytes_value_append:
  "bytes_value acc (xs @ ys) = bytes_value (bytes_value acc xs) ys"
  by (induction xs arbitrary: acc) auto

lemma bytes_value_to_bytes: "bytes_value acc (to_bytes k n) = acc * 256 ^ k + n mod 256 ^ k"
proof (induction k arbitrary: n)
  case 0
  then show ?case by simp
next
  case (Suc k)
  have "n mod (256 * 256 ^ k) = 256 * (n div 256 mod 256 ^ k) + n mod 256"
    by (rule mod_mult2_eq)
  moreover have "unat (of_nat (n mod 256) :: 8 word) = n mod 256"
    by (simp add: unat_of_nat)
  ultimately show ?case
    by (simp add: bytes_value_append Suc algebra_simps)
qed

lemma binary_inj: "binary i = binary j \<longleftrightarrow> i = j"
proof
  assume eq: "binary i = binary j"
  have v: "bytes_value 0 (binary k) = unat k" for k :: oid
  proof -
    have "unat k < 2 ^ 96"
      using unsigned_less [of k] by simp
    then have "unat k mod 256 ^ 12 = unat k"
      by simp
    then show ?thesis
      by (simp add: binary_def bytes_value_to_bytes)
  qed
  from eq have "unat i = unat j"
    using v [of i] v [of j] by simp
  then show "i = j"
    by (simp add: word_unat_eq_iff)
qed simp

text \<open>
  \<open>ObjectId\<close> accepts every well-formed text, with twelve bytes. A text it accepts that
  is not well formed holds whitespace, and gives fewer than twelve bytes: the bytes of no
  generated identifier.
\<close>

lemma fromhex_length:
  "fromhex s = Some bs \<Longrightarrow>
   2 * length bs \<le> length s \<and> (2 * length bs = length s \<longrightarrow> list_all (\<lambda>ch. hex_val ch \<noteq> None) s)"
proof (induction s arbitrary: bs rule: fromhex.induct)
  case 1
  then show ?case by simp
next
  case (2 c cs)
  show ?case
  proof (cases "ascii_space c")
    case True
    with 2 show ?thesis by fastforce
  next
    case False
    with "2.prems" obtain hi c' cs' lo bs' where
      hi: "hex_val c = Some hi" and cs: "cs = c' # cs'" and lo: "hex_val c' = Some lo" and
      rest: "fromhex cs' = Some bs'" and bs: "bs = of_nat (16 * hi + lo) # bs'"
      by (auto split: option.splits list.splits)
    from "2.IH"(2) [OF False hi cs lo rest]
    show ?thesis using hi lo cs bs by auto
  qed
qed

lemma fromhex_digits:
  "list_all (\<lambda>ch. hex_val ch \<noteq> None) s \<Longrightarrow> even (length s) \<Longrightarrow>
   \<exists>bs. fromhex s = Some bs \<and> 2 * length bs = length s"
proof (induction s rule: fromhex.induct)
  case 1
  then show ?case by simp
next
  case (2 c cs)
  from "2.prems" obtain hi where hi: "hex_val c = Some hi"
    by auto
  then have ns: "\<not> ascii_space c"
    by (rule hex_not_space)
  from "2.prems" obtain c' cs' where cs: "cs = c' # cs'"
    by (cases cs) auto
  with "2.prems" obtain lo where lo: "hex_val c' = Some lo"
    by auto
  from "2.prems" cs have "list_all (\<lambda>ch. hex_val ch \<noteq> None) cs'" and "even (length cs')"
    by auto
  with "2.IH"(2) [OF ns hi cs lo] obtain bs' where
    "fromhex cs' = Some bs'" and "2 * length bs' = length cs'"
    by blast
  with ns hi cs lo show ?case by simp
qed

lemma ObjectId_well_formed:
  "well_formed_id s \<Longrightarrow> \<exists>k. ObjectId s = Inr k \<and> length k = 12"
proof -
  assume wf: "well_formed_id s"
  then obtain bs where "fromhex s = Some bs" and "2 * length bs = length s"
    using fromhex_digits [of s] by (auto simp: well_formed_id_def)
  with wf show ?thesis
    by (auto simp: ObjectId_def well_formed_id_def)
qed

lemma ObjectId_not_well_formed:
  assumes "\<not> well_formed_id s" and "ObjectId s = Inr k"
  shows "length k < 12"
proof -
  from assms(2) have len: "length s = 24" and k: "fromhex s = Some k"
    by (auto simp: ObjectId_def split: if_splits option.splits)
  from fromhex_length [OF k] len assms(1) show ?thesis
    by (auto simp: well_formed_id_def)
qed

subsection \<open>Looking a document up\<close>

lemma find_by_binary:
  "distinct (map fst docs) \<Longrightarrow> (i, d) \<in> set docs \<Longrightarrow>
   List.find (\<lambda>(j, d'). binary j = binary i) docs = Some (i, d)"
  by (induction docs) (auto simp: binary_inj image_iff)

lemma find_no_match:
  "k \<notin> set (map binary (map fst docs)) \<Longrightarrow> List.find (\<lambda>(j, d'). binary j = k) docs = None"
  by (induction docs) auto


lemma find_one_stored:
  "reachable c \<Longrightarrow> distinct (ids c) \<Longrightarrow> (i, d) \<in> set (documents c) \<Longrightarrow>
   find_one c (binary i) = Inr (Some (with_id i d))"
  by (simp add: find_one_def ids_def find_by_binary)


text \<open>
  C7. For an identifier text that is not well formed, \<open>get_observation\<close> and
  \<open>delete_observation\<close> return an error envelope, no exception leaves the view, and the
  delete leaves the collection as it was. The envelope is the 500 of the \<open>except\<close> branch
  when \<open>ObjectId\<close> rejects the text or the collection cannot be reached. It is the 404
  of a missing record when \<open>ObjectId\<close> accepts the text, which it does for 24 characters
  of hexadecimal pairs and whitespace: the claim as stated, 500 for every malformed
  identifier, fails at such a text.
\<close>

theorem malformed_id:
  assumes "\<not> well_formed_id ident"
  shows "get_observation fp ident req c =
      (Inr (if isl (ObjectId ident) \<or> \<not> reachable c
            then (error_body ''Failed to fetch observation'', 500)
            else (error_body ''Observation not found'', 404)), c) \<and>
    delete_observation ident req' c =
      (Inr (if isl (ObjectId ident) \<or> \<not> reachable c
            then (error_body ''Failed to delete observation'', 500)
            else (error_body ''Observation not found'', 404)), c)"
proof (cases "ObjectId ident")
  case (Inl e)
  then show ?thesis
    by (simp add: get_observation_def delete_observation_def)
next
  case (Inr k)
  with assms have "length k < 12"
    by (rule ObjectId_not_well_formed)
  then have no: "k \<notin> set (map binary (map fst (documents c)))"
    by auto
  then have "List.find (\<lambda>(j, d'). binary j = k) (documents c) = None"
    by (rule find_no_match)
  with Inr no show ?thesis
    by (simp add: get_observation_def delete_observation_def find_one_def delete_one_def ids_def)
qed

theorem malformed_id_witness:
  "\<not> well_formed_id ''not-an-id'' \<and>
   get_observation integral_prims ''not-an-id'' anonymous empty_collection
     = (Inr (error_body ''Failed to fetch observation'', 500), empty_collection) \<and>
   delete_observation ''not-an-id'' anonymous (empty_collection :: int collection)
     = (Inr (error_body ''Failed to delete observation'', 500), empty_collection)"
proof -
  have bad: "\<not> well_formed_id ''not-an-id''"
    by (simp add: well_formed_id_def)
  have raised: "ObjectId ''not-an-id'' = Inl InvalidId"
    by (simp add: ObjectId_def)
  from malformed_id [OF bad, of integral_prims anonymous empty_collection anonymous] bad raised
  show ?thesis by simp
qed

theorem spaced_id_is_not_found:
  "\<not> well_formed_id spaced_id \<and>
   get_observation integral_prims spaced_id anonymous empty_collection
     = (Inr (error_body ''Observation not found'', 404), empty_collection) \<and>
   delete_observation spaced_id anonymous (empty_collection :: int collection)
     = (Inr (error_body ''Observation not found'', 404), empty_collection)"
proof -
  have k: "ObjectId spaced_id = Inr [0, 0, 0, 0, 0, 0, 0, 0]"
    by (simp add: ObjectId_def spaced_id_def ascii_space_def hex_val_def)
  have bad: "\<not> well_formed_id spaced_id"
    by (simp add: well_formed_id_def spaced_id_def hex_val_def)
  from k bad show ?thesis
    by (simp add: get_observation_def delete_observation_def find_one_def delete_one_def
          empty_collection_def ids_def)
qed

subsection \<open>Required fields\<close>

lemma missing_fields_dict:
  "missing_fields (PDict kvs) fs = Inr (filter (\<lambda>f. f \<notin> set (map fst kvs)) fs)"
  by (induction fs) auto

lemma map_of_key: "map_of kvs k = Some v \<Longrightarrow> k \<in> set (map fst kvs)"
  by (metis domI dom_map_of_conv_image_fst set_map)

lemma required_present:
  assumes "map_of kvs ''species'' = Some v1" "map_of kvs ''gender'' = Some v2"
    "map_of kvs ''quantity'' = Some v3" "map_of kvs ''latitude'' = Some v4"
    "map_of kvs ''longitude'' = Some v5" "map_of kvs ''userId'' = Some v6"
  shows "missing_fields (PDict kvs) required_fields = Inr []" and "kvs \<noteq> []"
  using assms [THEN map_of_key] by (auto simp: missing_fields_dict required_fields_def)

text \<open>
  C3. For a payload that is a non-empty JSON object lacking at least one of the six
  required keys, \<open>add_observation\<close> answers 400 with the message
  \<open>Missing fields: \<close> followed by exactly the required keys that are absent, in the
  order of \<open>required_fields\<close> and separated by a comma and a space; the collection is
  unchanged.
\<close>

theorem missing_keys:
  "get_json req = PDict kvs \<Longrightarrow> kvs \<noteq> [] \<Longrightarrow>
   \<not> set required_fields \<subseteq> set (map fst kvs) \<Longrightarrow>
   add_observation fp now gen req c =
     (Inr (error_body (''Missing fields: '' @
            join '', '' (filter (\<lambda>f. f \<notin> set (map fst kvs)) required_fields)), 400), c)"
  by (auto simp: add_observation_def missing_fields_dict filter_empty_conv Let_def)

theorem missing_keys_witness:
  "add_observation integral_prims noon 1
     \<lparr>x_api_key = None,
      get_json = PDict [(''species'', PStr ''Deer''), (''quantity'', PInt 2), (''note'', PNone)]\<rparr>
     empty_collection
   = (Inr (error_body ''Missing fields: gender, latitude, longitude, userId'', 400),
      empty_collection)"
  using missing_keys [of "\<lparr>x_api_key = None,
      get_json = PDict [(''species'', PStr ''Deer''), (''quantity'', PInt 2), (''note'', PNone)]\<rparr>"
      "[(''species'', PStr ''Deer''), (''quantity'', PInt 2), (''note'', PNone)]"
      integral_prims noon 1 empty_collection]
  by (simp add: required_fields_def)

subsection \<open>Adding an observation\<close>



lemma add_observation_created:
  assumes "get_json req = PDict kvs"
    and "map_of kvs ''species'' = Some v1" "map_of kvs ''gender'' = Some v2"
    "map_of kvs ''quantity'' = Some v3" "map_of kvs ''latitude'' = Some v4"
    "map_of kvs ''longitude'' = Some v5" "map_of kvs ''userId'' = Some v6"
    and "py_str fp v1 = Inr t1" "py_str fp v2 = Inr t2" "py_str fp v6 = Inr t6"
    and "py_int fp v3 = Inr quantity"
    and "py_float fp v4 = Inr latitude" "py_float fp v5 = Inr longitude"
    and "add_observation fp now gen req c = (Inr (body, 201), c')"
  shows "body = PDict [(''status'', PStr ''success''),
                      (''message'', PStr ''Observation added successfully''),
                      (''id'', PStr (oid_str gen))]"
    and "c' = c\<lparr>documents := documents c @
        [(gen, [(''species'', PStr (strip t1)),
                (''gender'', PStr (strip t2)),
                (''quantity'', PInt quantity),
                (''latitude'', PFloat latitude),
                (''longitude'', PFloat longitude),
                (''userId'', PStr (strip t6)),
                (''timestamp'', PDatetime (bson_datetime now))])]\<rparr>"
    and "reachable c" and "gen \<notin> set (ids c)"
    and "strip t2 \<in> set [''Male'', ''Female'', ''Unknown'']"
    and "1 \<le> quantity" and "quantity < 2 ^ 63"
proof -
  have m: "missing_fields (PDict kvs) required_fields = Inr []" and ne: "kvs \<noteq> []"
    using required_present [OF assms(2-7)] by simp_all
  have e: "extract_and_validate fp (PDict kvs) =
      (if strip t2 \<notin> set [''Male'', ''Female'', ''Unknown'']
       then Inr (Inl (error_body ''Invalid gender value'', 400))
       else if quantity < 1
       then Inr (Inl (error_body ''Quantity must be at least 1'', 400))
       else Inr (Inr (strip t1, strip t2, quantity, latitude, longitude,
                strip t6)))"
    using assms(2-13) by (simp add: extract_and_validate_def Let_def)
  have all: "(body = PDict [(''status'', PStr ''success''),
                      (''message'', PStr ''Observation added successfully''),
                      (''id'', PStr (oid_str gen))] \<and>
    c' = c\<lparr>documents := documents c @
        [(gen, [(''species'', PStr (strip t1)),
                (''gender'', PStr (strip t2)),
                (''quantity'', PInt quantity),
                (''latitude'', PFloat latitude),
                (''longitude'', PFloat longitude),
                (''userId'', PStr (strip t6)),
                (''timestamp'', PDatetime (bson_datetime now))])]\<rparr>) \<and>
    reachable c \<and> gen \<notin> set (ids c) \<and>
    strip t2 \<in> set [''Male'', ''Female'', ''Unknown''] \<and>
    1 \<le> quantity \<and> quantity < 2 ^ 63"
    using assms(14) assms(1) m ne e
    by (simp add: add_observation_def insert_one_def observation_of_def Let_def error_body_def
          split: if_splits)
  then show "body = PDict [(''status'', PStr ''success''),
                      (''message'', PStr ''Observation added successfully''),
                      (''id'', PStr (oid_str gen))]"
    and "c' = c\<lparr>documents := documents c @
        [(gen, [(''species'', PStr (strip t1)),
                (''gender'', PStr (strip t2)),
                (''quantity'', PInt quantity),
                (''latitude'', PFloat latitude),
                (''longitude'', PFloat longitude),
                (''userId'', PStr (strip t6)),
                (''timestamp'', PDatetime (bson_datetime now))])]\<rparr>"
    and "reachable c" and "gen \<notin> set (ids c)"
    and "strip t2 \<in> set [''Male'', ''Female'', ''Unknown'']"
    and "1 \<le> quantity" and "quantity < 2 ^ 63"
    by blast+
qed

text \<open>The payload is read at the six required keys and nowhere else.\<close>

lemma key_present: "k \<in> set (map fst kvs) \<longleftrightarrow> map_of kvs k \<noteq> None"
  by (simp add: map_of_eq_None_iff)

lemma add_observation_reads_required_only:
  assumes "get_json req = PDict kvs" and "get_json req' = PDict kvs'"
    and "kvs \<noteq> []" and "kvs' \<noteq> []"
    and "list_all (\<lambda>k. map_of kvs k = map_of kvs' k) required_fields"
  shows "add_observation fp now gen req c = add_observation fp now gen req' c"
proof -
  from assms(5) have same: "map_of kvs ''species'' = map_of kvs' ''species''"
    "map_of kvs ''gender'' = map_of kvs' ''gender''"
    "map_of kvs ''quantity'' = map_of kvs' ''quantity''"
    "map_of kvs ''latitude'' = map_of kvs' ''latitude''"
    "map_of kvs ''longitude'' = map_of kvs' ''longitude''"
    "map_of kvs ''userId'' = map_of kvs' ''userId''"
    by (simp_all add: required_fields_def)
  have "filter (\<lambda>f. f \<notin> set (map fst kvs)) required_fields =
      filter (\<lambda>f. f \<notin> set (map fst kvs')) required_fields"
    unfolding key_present using same by (simp add: required_fields_def)
  then have m: "missing_fields (PDict kvs) required_fields =
      missing_fields (PDict kvs') required_fields"
    by (simp add: missing_fields_dict)
  have e: "extract_and_validate fp (PDict kvs) = extract_and_validate fp (PDict kvs')"
    using same by (simp add: extract_and_validate_def)
  show ?thesis
    using assms(1-4) m e by (simp add: add_observation_def Let_def split: sum.splits)
qed

text \<open>The example payload, evaluated.\<close>

lemma char_of_eqI: "of_char c = n \<Longrightarrow> char_of (n::nat) = c"
  by auto

lemma digit_char_numerals:
  "digit_char 0 = CHR ''0''" "digit_char 1 = CHR ''1''" "digit_char 2 = CHR ''2''"
  "digit_char 3 = CHR ''3''" "digit_char 4 = CHR ''4''" "digit_char 5 = CHR ''5''"
  "digit_char 6 = CHR ''6''" "digit_char 7 = CHR ''7''" "digit_char 8 = CHR ''8''"
  "digit_char 9 = CHR ''9''" "digit_char (Suc 0) = CHR ''1''"
  by (simp_all add: digit_char_def) (rule char_of_eqI, simp)+

lemma isoformat_noon: "isoformat (bson_datetime noon) = ''2024-05-17T12:00:00.250000''"
  by (simp add: isoformat_def isoformat_sep_def bson_datetime_def noon_def zero_pad_def
        digit_char_numerals)









subsection \<open>Coercions that raise\<close>

text \<open>
  \<open>str\<close> raises \<open>ValueError\<close> only; \<open>int\<close> and \<open>float\<close> raise \<open>ValueError\<close>, \<open>TypeError\<close> or
  \<open>OverflowError\<close>. The handler catches the first two. When no coercion overflows, a gender outside the enumeration
  and a quantity below 1 are both answered 400.
\<close>

lemma py_int_raises:
  "py_int fp v = Inl e \<Longrightarrow> e = ValueError \<or> e = TypeError \<or> e = OverflowError"
  by (cases "(fp, v)" rule: py_int.cases) (auto split: option.splits)

lemma py_float_raises:
  "py_float fp v = Inl e \<Longrightarrow> e = ValueError \<or> e = TypeError \<or> e = OverflowError"
  by (cases "(fp, v)" rule: py_float.cases) (auto split: option.splits if_splits)

lemma gender_outside_enumeration:
  assumes "get_json req = PDict kvs"
    and "map_of kvs ''species'' = Some v1" "map_of kvs ''gender'' = Some v2"
    "map_of kvs ''quantity'' = Some v3" "map_of kvs ''latitude'' = Some v4"
    "map_of kvs ''longitude'' = Some v5" "map_of kvs ''userId'' = Some v6"
    and "py_str fp v1 = Inr t1" "py_str fp v2 = Inr t2" "py_str fp v6 = Inr t6"
    and "strip t2 \<notin> set [''Male'', ''Female'', ''Unknown'']"
    and "py_int fp v3 \<noteq> Inl OverflowError"
    and "py_float fp v4 \<noteq> Inl OverflowError" "py_float fp v5 \<noteq> Inl OverflowError"
  shows "add_observation fp now gen req c = (Inr (error_body ''Invalid gender value'', 400), c) \<or>
    add_observation fp now gen req c = (Inr (error_body ''Invalid data types provided'', 400), c)"
proof -
  have m: "missing_fields (PDict kvs) required_fields = Inr []" and ne: "kvs \<noteq> []"
    using required_present [OF assms(2-7)] by simp_all
  have "extract_and_validate fp (PDict kvs) = Inl ValueError \<or>
      extract_and_validate fp (PDict kvs) = Inl TypeError \<or>
      extract_and_validate fp (PDict kvs) = Inr (Inl (error_body ''Invalid gender value'', 400))"
    using assms(2-14) py_int_raises [of fp v3] py_float_raises [of fp v4] py_float_raises [of fp v5]
    by (cases "py_int fp v3"; cases "py_float fp v4"; cases "py_float fp v5")
       (auto simp: extract_and_validate_def Let_def)
  then show ?thesis
    using assms(1) m ne by (auto simp: add_observation_def Let_def)
qed

lemma quantity_below_one:
  assumes "get_json req = PDict kvs"
    and "map_of kvs ''species'' = Some v1" "map_of kvs ''gender'' = Some v2"
    "map_of kvs ''quantity'' = Some v3" "map_of kvs ''latitude'' = Some v4"
    "map_of kvs ''longitude'' = Some v5" "map_of kvs ''userId'' = Some v6"
    and "py_str fp v1 = Inr t1" "py_str fp v2 = Inr t2" "py_str fp v6 = Inr t6"
    and "py_int fp v3 = Inr quantity" "quantity < 1"
    and "py_float fp v4 \<noteq> Inl OverflowError" "py_float fp v5 \<noteq> Inl OverflowError"
  shows "add_observation fp now gen req c = (Inr (error_body ''Quantity must be at least 1'', 400), c) \<or>
    add_observation fp now gen req c = (Inr (error_body ''Invalid gender value'', 400), c) \<or>
    add_observation fp now gen req c = (Inr (error_body ''Invalid data types provided'', 400), c)"
proof -
  have m: "missing_fields (PDict kvs) required_fields = Inr []" and ne: "kvs \<noteq> []"
    using required_present [OF assms(2-7)] by simp_all
  have "extract_and_validate fp (PDict kvs) = Inl ValueError \<or>
      extract_and_validate fp (PDict kvs) = Inl TypeError \<or>
      extract_and_validate fp (PDict kvs) = Inr (Inl (error_body ''Invalid gender value'', 400)) \<or>
      extract_and_validate fp (PDict kvs) = Inr (Inl (error_body ''Quantity must be at least 1'', 400))"
    using assms(2-14) py_float_raises [of fp v4] py_float_raises [of fp v5]
    by (cases "py_float fp v4"; cases "py_float fp v5")
       (auto simp: extract_and_validate_def Let_def)
  then show ?thesis
    using assms(1) m ne by (auto simp: add_observation_def Let_def)
qed

lemma numeric_string_three: "py_int fp (PStr ''3'') = Inr 3"
  by (simp add: int_of_str_def strip_def py_isspace_def parse_digits_def digit_val_def max_str_digits_def)

text \<open>
  C5. A gender outside the enumeration is to be answered 400. On the payload below the
  gender is \<open>Cat\<close> and the latitude is the integer \<open>10^400\<close>: \<open>float\<close> raises
  \<open>OverflowError\<close> before the gender is checked, the \<open>except\<close> clause does not catch it,
  and the exception leaves the view instead of a 400 response.
\<close>

theorem overflow_escapes_gender_check:
  "add_observation fp now gen
     \<lparr>x_api_key = key,
      get_json = PDict [(''species'', PStr ''Deer''), (''gender'', PStr ''Cat''),
                        (''quantity'', PInt 1), (''latitude'', PInt (10 ^ 400)),
                        (''longitude'', PInt 0), (''userId'', PStr ''u1'')]\<rparr> c
   = (Inl OverflowError, c)"
  by (simp add: add_observation_def required_fields_def extract_and_validate_def
        double_overflow_def Let_def)

text \<open>
  C4. A quantity that coerces to an integer below 1 is to be answered 400. On the payload
  below the quantity is 0 and the latitude is the integer \<open>10^400\<close>: \<open>float\<close> raises
  \<open>OverflowError\<close> before the quantity is checked, and the exception leaves the view
  instead of a 400 response. (The numeric string \<open>3\<close> is accepted and stored as the
  integer 3, as \<open>add_deer\<close> shows.)
\<close>

theorem overflow_escapes_quantity_check:
  "add_observation fp now gen
     \<lparr>x_api_key = key,
      get_json = PDict [(''species'', PStr ''Deer''), (''gender'', PStr ''Male''),
                        (''quantity'', PInt 0), (''latitude'', PInt (10 ^ 400)),
                        (''longitude'', PInt 0), (''userId'', PStr ''u1'')]\<rparr> c
   = (Inl OverflowError, c)"
  by (simp add: add_observation_def required_fields_def extract_and_validate_def
        double_overflow_def Let_def)

subsection \<open>Deleting\<close>

lemma delete_first_keys: "set (map fst (delete_first k xs)) \<subseteq> set (map fst xs)"
  by (induction k xs rule: delete_first.induct) auto

lemma delete_first_distinct:
  "distinct (map fst xs) \<Longrightarrow> distinct (map fst (delete_first k xs))"
  using delete_first_keys by (induction k xs rule: delete_first.induct) fastforce+

lemma delete_first_removes:
  "distinct (map fst xs) \<Longrightarrow> k \<notin> set (map binary (map fst (delete_first k xs)))"
  by (induction k xs rule: delete_first.induct) (auto simp: binary_inj image_iff)

lemma delete_first_list_all:
  "list_all P xs \<Longrightarrow> list_all P (delete_first k xs)"
  by (induction k xs rule: delete_first.induct) auto

text \<open>
  C6. For a well-formed identifier, when \<open>delete_one\<close> reports how many documents it
  removed: zero is answered 404 and leaves the collection as it was, otherwise the answer
  is 200 with the success acknowledgment. Identifiers being unique, a second delete of
  the identifier just removed finds nothing and is answered 404.
\<close>

theorem delete_not_idempotent:
  assumes "ObjectId ident = Inr i" and "delete_one c i = Inr (n, c')"
  shows "delete_observation ident req c =
      (if n = 0 then (Inr (error_body ''Observation not found'', 404), c')
       else (Inr (PDict [(''status'', PStr ''success''),
                         (''message'', PStr ''Observation deleted successfully'')], 200), c')) \<and>
    (n = 0 \<longrightarrow> c' = c) \<and>
    (n \<noteq> 0 \<and> distinct (ids c) \<longrightarrow>
       delete_observation ident req' c' = (Inr (error_body ''Observation not found'', 404), c'))"
proof -
  have first: "delete_observation ident req c =
      (if n = 0 then (Inr (error_body ''Observation not found'', 404), c')
       else (Inr (PDict [(''status'', PStr ''success''),
                         (''message'', PStr ''Observation deleted successfully'')], 200), c'))"
    using assms by (simp add: delete_observation_def)
  have same: "n = 0 \<longrightarrow> c' = c"
    using assms(2) by (auto simp: delete_one_def split: if_splits)
  have second: "delete_observation ident req' c' =
      (Inr (error_body ''Observation not found'', 404), c')" if "n \<noteq> 0" "distinct (ids c)"
  proof -
    from assms(2) that(1) have up: "reachable c" and c': "c' = c\<lparr>documents := delete_first i (documents c)\<rparr>"
      by (auto simp: delete_one_def split: if_splits)
    have "i \<notin> set (map binary (ids c'))"
      using that(2) delete_first_removes [of "documents c" i] by (simp add: c' ids_def)
    then have "delete_one c' i = Inr (0, c')"
      using up by (simp add: delete_one_def c')
    then show ?thesis
      using assms(1) by (simp add: delete_observation_def)
  qed
  from first same second show ?thesis by blast
qed

theorem delete_not_idempotent_witness:
  "delete_observation (oid_str 1) anonymous one_deer =
     (Inr (PDict [(''status'', PStr ''success''),
                  (''message'', PStr ''Observation deleted successfully'')], 200),
      empty_collection) \<and>
   delete_observation (oid_str 1) anonymous (empty_collection :: int collection) =
     (Inr (error_body ''Observation not found'', 404), empty_collection)"
proof -
  have d: "delete_one one_deer (binary 1) = Inr (1, empty_collection)"
    by (simp add: delete_one_def one_deer_def empty_collection_def ids_def)
  have "distinct (ids one_deer)"
    by (simp add: one_deer_def ids_def)
  with delete_not_idempotent [OF ObjectId_oid_str d, of anonymous anonymous]
  show ?thesis by simp
qed

subsection \<open>Rendering\<close>

lemma update_timestamp_map:
  "distinct (map fst d) \<Longrightarrow> map_of d ''timestamp'' = Some (PDatetime t) \<Longrightarrow>
   AList.update ''timestamp'' (PStr (isoformat t @ ''Z'')) d =
   map (\<lambda>(k, v). (k, if k = ''timestamp''
                      then (case v of PDatetime t \<Rightarrow> PStr (isoformat t @ ''Z'') | _ \<Rightarrow> v)
                      else v)) d"
proof (induction d)
  case Nil
  then show ?case by simp
next
  case (Cons kv d)
  obtain k v where kv: "kv = (k, v)" by (cases kv)
  show ?case
  proof (cases "k = ''timestamp''")
    case True
    with Cons.prems kv have "''timestamp'' \<notin> set (map fst d)" and v: "v = PDatetime t"
      by auto
    then have "map (\<lambda>(k, v). (k, if k = ''timestamp''
                      then (case v of PDatetime t \<Rightarrow> PStr (isoformat t @ ''Z'') | _ \<Rightarrow> v)
                      else v)) d = d"
      by (induction d) auto
    with True kv v show ?thesis by simp
  next
    case False
    with Cons kv show ?thesis by simp
  qed
qed

lemma wf_document_timestamp:
  "wf_document d \<Longrightarrow> \<exists>t. map_of d ''timestamp'' = Some (PDatetime t)"
  by (auto simp: wf_document_def split: option.splits pyval.splits)

lemma convert_one:
  assumes "wf_document d"
  shows "\<exists>t. map_of d ''timestamp'' = Some (PDatetime t) \<and>
     AList.update ''timestamp'' (PStr (isoformat t @ ''Z''))
       (AList.update ''_id'' (PStr (oid_str i)) (with_id i d)) = rendering i d"
proof -
  from assms obtain t where t: "map_of d ''timestamp'' = Some (PDatetime t)"
    using wf_document_timestamp by blast
  moreover from assms have "distinct (map fst d)"
    by (simp add: wf_document_def)
  ultimately show ?thesis
    using update_timestamp_map [of d t] by (auto simp: with_id_def rendering_def)
qed

lemma has_oid_rendering:
  assumes "\<not> has_oid (PDict d)"
  shows "\<not> has_oid (PDict (rendering i d))"
proof
  assume "has_oid (PDict (rendering i d))"
  then obtain k v where kv: "(k, v) \<in> set d" and
    h: "has_oid (if k = ''timestamp''
                 then (case v of PDatetime t \<Rightarrow> PStr (isoformat t @ ''Z'') | _ \<Rightarrow> v) else v)"
    by (auto simp: rendering_def list_ex_iff)
  from h have "has_oid v"
    by (cases v) (auto split: if_splits)
  with kv have "has_oid (PDict d)"
    by (simp add: list_ex_iff) (rule bexI [of _ "(k, v)"], simp_all)
  with assms show False by simp
qed

lemma convert_each_wf:
  "list_all (\<lambda>(i, d). wf_document d) docs \<Longrightarrow>
   convert_each fp (map (\<lambda>(i, d). with_id i d) docs) = Inr (map (\<lambda>(i, d). rendering i d) docs)"
proof (induction docs)
  case Nil
  then show ?case by simp
next
  case (Cons p docs)
  obtain i d where p: "p = (i, d)" by (cases p)
  with Cons.prems have wf: "wf_document d" by simp
  from convert_one [OF wf, of i] obtain t where
    t: "map_of d ''timestamp'' = Some (PDatetime t)" and
    r: "AList.update ''timestamp'' (PStr (isoformat t @ ''Z''))
       (AList.update ''_id'' (PStr (oid_str i)) (with_id i d)) = rendering i d"
    by blast
  have step: "map_of (AList.update ''_id'' (PStr (oid_str i)) (with_id i d)) ''timestamp'' =
      Some (PDatetime t)"
    using t by (simp add: with_id_def)
  from Cons have rest: "convert_each fp (map (\<lambda>(i, d). with_id i d) docs) =
      Inr (map (\<lambda>(i, d). rendering i d) docs)"
    by simp
  show ?case
    using r step rest by (simp add: p Let_def) (simp add: with_id_def)
qed

lemma no_oid_in_renderings:
  assumes "list_all (\<lambda>(i, d). wf_document d) docs"
  shows "\<not> list_ex has_oid (map PDict (map (\<lambda>(i, d). rendering i d) docs))"
proof
  assume "list_ex has_oid (map PDict (map (\<lambda>(i, d). rendering i d) docs))"
  then obtain i d where mem: "(i, d) \<in> set docs" and h: "has_oid (PDict (rendering i d))"
    unfolding list_ex_iff by auto
  from mem assms have "wf_document d"
    unfolding list_all_iff by auto
  then have "\<not> has_oid (PDict d)"
    unfolding wf_document_def by blast
  with h has_oid_rendering [of d i] show False by blast
qed

lemma rendering_deer:
  "rendering 1 deer_document =
     [(''_id'', PStr (oid_str 1)), (''species'', PStr ''Deer''), (''gender'', PStr ''Male''),
      (''quantity'', PInt 3), (''latitude'', PFloat (Finite 45)),
      (''longitude'', PFloat (Finite (- 70))), (''userId'', PStr ''u1''),
      (''timestamp'', PStr ''2024-05-17T12:00:00.250000Z'')]"
  by (simp add: rendering_def deer_document_def isoformat_noon)

lemma wf_one_deer: "wf_collection one_deer" "reachable one_deer"
  by (simp_all add: wf_collection_def one_deer_def ids_def wf_document_def deer_document_def)

text \<open>
  C8. On a reachable, well-formed collection \<open>get_observations\<close> answers 200 with every
  stored document, in storage order, each rendered with its identifier as its canonical
  text and its timestamp as ISO-8601 text followed by \<open>Z\<close>; \<open>get_observation\<close> on the
  text of a stored identifier answers 200 with the same rendering of that document.
\<close>

theorem same_rendering:
  assumes "reachable c" and "wf_collection c"
  shows "get_observations fp req c =
      (Inr (PDict [(''status'', PStr ''success''),
                   (''observations'', PList (map (\<lambda>(i, d). PDict (rendering i d)) (documents c)))],
            200), c) \<and>
    (\<forall>i d. (i, d) \<in> set (documents c) \<longrightarrow>
       get_observation fp (oid_str i) req' c =
         (Inr (PDict [(''status'', PStr ''success''),
                      (''observation'', PDict (rendering i d))], 200), c))"
proof
  from assms(2) have wf: "list_all (\<lambda>(i, d). wf_document d) (documents c)"
    by (simp add: wf_collection_def)
  have "map PDict (map (\<lambda>(i, d). rendering i d) (documents c)) =
      map (\<lambda>(i, d). PDict (rendering i d)) (documents c)"
    by (simp add: case_prod_unfold comp_def)
  then show "get_observations fp req c =
      (Inr (PDict [(''status'', PStr ''success''),
                   (''observations'', PList (map (\<lambda>(i, d). PDict (rendering i d)) (documents c)))],
            200), c)"
    using assms(1) convert_each_wf [OF wf, of fp] no_oid_in_renderings [OF wf]
    by (simp add: get_observations_def find_def jsonify_def)
next
  show "\<forall>i d. (i, d) \<in> set (documents c) \<longrightarrow>
       get_observation fp (oid_str i) req' c =
         (Inr (PDict [(''status'', PStr ''success''),
                      (''observation'', PDict (rendering i d))], 200), c)"
  proof (intro allI impI)
    fix i d
    assume mem: "(i, d) \<in> set (documents c)"
    with assms(2) have wf: "wf_document d" and "distinct (map fst (documents c))"
      by (auto simp: wf_collection_def ids_def list_all_iff)
    with mem have found: "find_one c (binary i) = Inr (Some (with_id i d))"
      using assms(1) by (simp add: find_one_stored ids_def)
    from convert_one [OF wf, of i] obtain t where
      t: "map_of d ''timestamp'' = Some (PDatetime t)" and
      r: "AList.update ''timestamp'' (PStr (isoformat t @ ''Z''))
         (AList.update ''_id'' (PStr (oid_str i)) (with_id i d)) = rendering i d"
      by blast
    have step: "map_of (AList.update ''_id'' (PStr (oid_str i)) (with_id i d)) ''timestamp'' =
        Some (PDatetime t)"
      using t by (simp add: with_id_def)
    have json: "\<not> has_oid (PDict (rendering i d))"
      using wf has_oid_rendering by (auto simp: wf_document_def)
    have id: "map_of (with_id i d) ''_id'' = Some (PObjectId i)"
      by (simp add: with_id_def)
    show "get_observation fp (oid_str i) req' c =
         (Inr (PDict [(''status'', PStr ''success''),
                      (''observation'', PDict (rendering i d))], 200), c)"
      using found id step r json
      by (simp add: get_observation_def ObjectId_oid_str jsonify_def Let_def del: has_oid.simps)
         (simp add: json)
  qed
qed

theorem same_rendering_witness:
  "get_observations integral_prims anonymous one_deer =
     (Inr (PDict [(''status'', PStr ''success''),
                  (''observations'', PList [PDict
                     [(''_id'', PStr (oid_str 1)), (''species'', PStr ''Deer''),
                      (''gender'', PStr ''Male''), (''quantity'', PInt 3),
                      (''latitude'', PFloat (Finite 45)), (''longitude'', PFloat (Finite (- 70))),
                      (''userId'', PStr ''u1''),
                      (''timestamp'', PStr ''2024-05-17T12:00:00.250000Z'')]])], 200),
      one_deer) \<and>
   get_observation integral_prims (oid_str 1) anonymous one_deer =
     (Inr (PDict [(''status'', PStr ''success''),
                  (''observation'', PDict
                     [(''_id'', PStr (oid_str 1)), (''species'', PStr ''Deer''),
                      (''gender'', PStr ''Male''), (''quantity'', PInt 3),
                      (''latitude'', PFloat (Finite 45)), (''longitude'', PFloat (Finite (- 70))),
                      (''userId'', PStr ''u1''),
                      (''timestamp'', PStr ''2024-05-17T12:00:00.250000Z'')])], 200),
      one_deer)"
proof -
  have mem: "(1, deer_document) \<in> set (documents one_deer)"
    by (simp add: one_deer_def)
  from same_rendering [OF wf_one_deer(2) wf_one_deer(1), of integral_prims anonymous anonymous] mem
  have "get_observations integral_prims anonymous one_deer =
      (Inr (PDict [(''status'', PStr ''success''),
                   (''observations'', PList (map (\<lambda>(i, d). PDict (rendering i d)) (documents one_deer)))],
            200), one_deer)"
    and "get_observation integral_prims (oid_str 1) anonymous one_deer =
         (Inr (PDict [(''status'', PStr ''success''),
                      (''observation'', PDict (rendering 1 deer_document))], 200), one_deer)"
    by blast+
  then show ?thesis
    by (simp add: rendering_deer) (simp add: one_deer_def rendering_deer)
qed

subsection \<open>The service keeps the collection well formed\<close>

lemma add_observation_store:
  "snd (add_observation fp now gen req c) = c \<or>
   (\<exists>fs. gen \<notin> set (ids c) \<and>
      snd (add_observation fp now gen req c) =
        c\<lparr>documents := documents c @
          [(gen, map (\<lambda>kv. (fst kv, bson_stored (snd kv))) (observation_of fs now))]\<rparr>)"
  by (auto simp: add_observation_def insert_one_def Let_def
           split: sum.splits if_splits) blast

lemma wf_observation_of:
  "wf_document (map (\<lambda>kv. (fst kv, bson_stored (snd kv))) (observation_of fs now))"
  by (cases fs) (simp add: observation_of_def wf_document_def)

lemma app_preserves_wf:
  assumes "wf_collection c"
  shows "wf_collection (snd (app API_KEY fp now gen r req c))"
proof -
  have add: "wf_collection (snd (add_observation fp now gen req c))"
    using add_observation_store [of fp now gen req c] assms wf_observation_of
    by (auto simp: wf_collection_def ids_def)
  have del: "wf_collection (snd (delete_observation ident req c))" for ident
    using assms delete_first_distinct [of "documents c"] delete_first_list_all [of _ "documents c"]
    by (auto simp: delete_observation_def delete_one_def wf_collection_def ids_def bind_exc_def
             split: sum.splits if_splits)
  show ?thesis
    using assms add del
    by (cases r)
       (auto simp: app_def require_api_key_def get_observations_def get_observation_def home_def
             Let_def split: sum.splits)
qed

lemma wf_empty_collection: "wf_collection empty_collection"
  by (simp add: wf_collection_def empty_collection_def ids_def)

text \<open>Every collection the service produces from an empty one is well formed.\<close>

lemma served_wf: "served API_KEY fp c \<Longrightarrow> wf_collection c"
proof (induction rule: served.induct)
  case (start up a)
  show ?case by (simp add: wf_collection_def ids_def)
next
  case (request c now gen r req)
  then show ?case by (simp add: app_preserves_wf)
next
  case (network c up a)
  then show ?case by (simp add: wf_collection_def ids_def)
qed

end
